theory Spec2Isabelle
  imports Main "HOL-Library.Char_ord" "HOL-Library.List_Lexorder"
begin

section \<open>The Python runtime the store relies on\<close>

subsection \<open>Naive datetimes and their two text forms\<close>

text \<open>
  \<^verbatim>\<open>datetime.utcnow()\<close> yields a naive datetime. A datetime is modelled by the number
  of microseconds since 0001-01-01T00:00:00, the smallest datetime of Python (so it is
  never negative); the largest one is 9999-12-31T23:59:59.999999. Comparison of datetimes
  is comparison of these numbers.
\<close>

type_synonym datetime = int

definition MAX_DATETIME :: datetime where
  "MAX_DATETIME = 3652059 * 86400000000 - 1"

datatype py_error = OverflowError | LockTimeout | UnicodeDecodeError | OtherError

text \<open>
  \<^verbatim>\<open>dt + timedelta(seconds=n)\<close> for an integer \<open>n\<close>: the sum, or OverflowError
  when it leaves the range of datetimes (the range of timedelta is wider than that of
  datetime, so the sum decides).
\<close>

definition dt_add_seconds :: "datetime \<Rightarrow> int \<Rightarrow> py_error + datetime" where
  "dt_add_seconds dt n =
     (let r = dt + n * 1000000
      in if 0 \<le> r \<and> r \<le> MAX_DATETIME then Inr r else Inl OverflowError)"

text \<open>The calendar of \<^verbatim>\<open>Lib/_pydatetime.py\<close>: index 0 of both tables is never read.\<close>

definition DAYS_IN_MONTH :: "int list" where
  "DAYS_IN_MONTH = [0, 31, 28, 31, 30, 31, 30, 31, 31, 30, 31, 30, 31]"

definition DAYS_BEFORE_MONTH :: "int list" where
  "DAYS_BEFORE_MONTH = [0, 0, 31, 59, 90, 120, 151, 181, 212, 243, 273, 304, 334]"

text \<open>\<^verbatim>\<open>_ord2ymd(n)\<close>: the ordinal \<open>n \<ge> 1\<close> of a day to (year, month, day).\<close>

definition ord2ymd :: "int \<Rightarrow> int \<times> int \<times> int" where
  "ord2ymd ordinal =
     (let n = ordinal - 1;
          n400 = n div 146097; n = n mod 146097;
          year = n400 * 400 + 1;
          n100 = n div 36524; n = n mod 36524;
          n4 = n div 1461; n = n mod 1461;
          n1 = n div 365; n = n mod 365;
          year = year + n100 * 100 + n4 * 4 + n1
      in if n1 = 4 \<or> n100 = 4 then (year - 1, 12, 31)
         else
           let leapyear = (n1 = 3 \<and> (n4 \<noteq> 24 \<or> n100 = 3));
               month = (n + 50) div 32;
               preceding = DAYS_BEFORE_MONTH ! nat month + (if month > 2 \<and> leapyear then 1 else 0)
           in if preceding > n
              then let month = month - 1;
                       preceding = preceding
                         - (DAYS_IN_MONTH ! nat month + (if month = 2 \<and> leapyear then 1 else 0))
                   in (year, month, n - preceding + 1)
              else (year, month, n - preceding + 1))"

definition digit_char :: "int \<Rightarrow> char" where
  "digit_char d = ''0123456789'' ! nat (d mod 10)"

text \<open>\<^verbatim>\<open>"%02d"\<close>, \<^verbatim>\<open>"%04d"\<close> and \<^verbatim>\<open>"%06d"\<close> on the fields of a datetime, all of which
  fit their width.\<close>

definition pad2 :: "int \<Rightarrow> string" where
  "pad2 n = [digit_char (n div 10), digit_char n]"

definition pad4 :: "int \<Rightarrow> string" where
  "pad4 n = pad2 (n div 100) @ pad2 n"

definition pad6 :: "int \<Rightarrow> string" where
  "pad6 n = pad2 (n div 10000) @ pad4 n"

text \<open>
  \<^verbatim>\<open>datetime.isoformat(sep)\<close> is the date as \<^verbatim>\<open>"%04d-%02d-%02d"\<close>, the separator, and
  the time as \<^verbatim>\<open>_format_time\<close> prints it with the default \<^verbatim>\<open>timespec='auto'\<close>: the
  fraction appears only when the microsecond field is not zero.
\<close>

definition date_text :: "datetime \<Rightarrow> string" where
  "date_text dt =
     (let (y, m, d) = ord2ymd (dt div 1000000 div 86400 + 1)
      in pad4 y @ ''-'' @ pad2 m @ ''-'' @ pad2 d)"

definition time_text :: "datetime \<Rightarrow> string" where
  "time_text dt =
     (let us = dt mod 1000000;
          secs = dt div 1000000;
          ss = secs mod 60;
          mm = (secs div 60) mod 60;
          hh = (secs div 3600) mod 24
      in pad2 hh @ '':'' @ pad2 mm @ '':'' @ pad2 ss
         @ (if us = 0 then [] else ''.'' @ pad6 us))"

definition isoformat_sep :: "char \<Rightarrow> datetime \<Rightarrow> string" where
  "isoformat_sep sep dt = date_text dt @ [sep] @ time_text dt"

text \<open>\<^verbatim>\<open>now.isoformat()\<close> separates date and time by \<^verbatim>\<open>T\<close>.\<close>

definition isoformat :: "datetime \<Rightarrow> string" where
  "isoformat dt = isoformat_sep CHR ''T'' dt"

text \<open>
  \<^verbatim>\<open>str(dt)\<close> is \<^verbatim>\<open>dt.isoformat(sep=' ')\<close>. It is what \<^verbatim>\<open>_write_data\<close> stores for a
  datetime: \<^verbatim>\<open>json.dump(data, f, indent=2, default=str)\<close>.
\<close>

definition py_str :: "datetime \<Rightarrow> string" where
  "py_str dt = isoformat_sep CHR '' '' dt"

section \<open>Data model\<close>

text \<open>
  A job as the backing file holds it. Field \<open>job_id\<close> is the key \<^verbatim>\<open>"id"\<close>. The three
  timestamps are strings: every operation loads the snapshot from JSON and saves it back
  before it returns, so between operations a timestamp is the text \<^verbatim>\<open>str\<close> gave it.
  \<open>attempts\<close> is created as 0 and only ever incremented or reset to 0, hence a natural
  number; \<open>max_retries\<close> is whatever integer the caller or the configuration supplied.
\<close>

record job =
  job_id :: string
  command :: string
  state :: string
  attempts :: nat
  max_retries :: int
  run_at :: string
  created_at :: string
  updated_at :: string

record worker =
  pid :: int
  last_heartbeat :: string

record store =
  jobs :: "job list"
  dlq :: "job list"
  active_workers :: "worker list"

text \<open>The keys of \<^verbatim>\<open>config.py\<close> the store reads.\<close>

record config =
  cfg_max_retries :: int
  backoff_base :: int
  worker_timeout_seconds :: int

definition DEFAULT_CONFIG :: config where
  "DEFAULT_CONFIG = \<lparr>cfg_max_retries = 3, backoff_base = 2, worker_timeout_seconds = 30\<rparr>"

definition empty_store :: store where
  "empty_store = \<lparr>jobs = [], dlq = [], active_workers = []\<rparr>"

section \<open>storage.py\<close>

subsection \<open>Loading\<close>




subsection \<open>Job operations\<close>

text \<open>
  Each operation below is the body of one \<^verbatim>\<open>with _get_lock():\<close> block: it takes the
  snapshot \<^verbatim>\<open>_read_data\<close> returned and yields the snapshot \<^verbatim>\<open>_write_data\<close> saved (the
  argument itself where nothing is written). Every call of \<^verbatim>\<open>datetime.utcnow()\<close> is a
  parameter, in the order of the calls; \<^verbatim>\<open>uuid.uuid4()\<close> is the parameter \<open>new_id\<close>.
\<close>

definition enqueue_job :: "config \<Rightarrow> string \<Rightarrow> string \<Rightarrow> int option \<Rightarrow> datetime \<Rightarrow> store \<Rightarrow> store" where
  "enqueue_job cfg new_id cmd mr now data =
     (let job = \<lparr>job_id = new_id, command = cmd, state = ''pending'', attempts = 0,
                 max_retries = (case mr of Some m \<Rightarrow> m | None \<Rightarrow> cfg_max_retries cfg),
                 run_at = py_str now, created_at = py_str now, updated_at = py_str now\<rparr>
      in data\<lparr>jobs := jobs data @ [job]\<rparr>)"

text \<open>The test of the loop in \<^verbatim>\<open>get_next_job_for_worker\<close>: a comparison of two strings.\<close>

definition eligible :: "datetime \<Rightarrow> job \<Rightarrow> bool" where
  "eligible now job \<longleftrightarrow> state job = ''pending'' \<and> run_at job \<le> isoformat now"

text \<open>
  \<^verbatim>\<open>list.sort\<close> is stable, as \<open>sort_key\<close> is. The function returns the job it found and
  the saved snapshot; the returned job is shown as it is saved.
\<close>

definition get_next_job_for_worker :: "datetime \<Rightarrow> datetime \<Rightarrow> store \<Rightarrow> job option \<times> store" where
  "get_next_job_for_worker now now2 data =
     (let pending_jobs = filter (\<lambda>(i, job). eligible now job) (enumerate 0 (jobs data));
          sorted_jobs = sort_key (\<lambda>x. created_at (snd x)) pending_jobs
      in case sorted_jobs of
           [] \<Rightarrow> (None, data)
         | (job_index, found_job) # _ \<Rightarrow>
             let found_job = found_job\<lparr>state := ''processing'', updated_at := py_str now2\<rparr>
             in (Some found_job, data\<lparr>jobs := (jobs data)[job_index := found_job]\<rparr>))"

text \<open>The loops \<^verbatim>\<open>for i, j in enumerate(...): if j["id"] == ...: job_index = i; break\<close>.\<close>

fun find_job_index :: "string \<Rightarrow> job list \<Rightarrow> nat option" where
  "find_job_index jid [] = None"
| "find_job_index jid (j # js) =
     (if job_id j = jid then Some 0 else map_option Suc (find_job_index jid js))"

text \<open>What such a loop finds: the first position of the list whose job carries the id.\<close>

definition first_with_id :: "string \<Rightarrow> job list \<Rightarrow> nat \<Rightarrow> bool" where
  "first_with_id jid js i \<longleftrightarrow>
     i < length js \<and> job_id (js ! i) = jid \<and> (\<forall>k < i. job_id (js ! k) \<noteq> jid)"

text \<open>\<^verbatim>\<open>xs.pop(i)\<close> for an index in range: the list that remains.\<close>

definition pop_at :: "nat \<Rightarrow> 'a list \<Rightarrow> 'a list" where
  "pop_at i xs = take i xs @ drop (Suc i) xs"

definition update_job_to_completed :: "string \<Rightarrow> datetime \<Rightarrow> store \<Rightarrow> store" where
  "update_job_to_completed jid now data =
     (case find_job_index jid (jobs data) of
        None \<Rightarrow> data
      | Some i \<Rightarrow>
          data\<lparr>jobs := (jobs data)[i := (jobs data ! i)\<lparr>state := ''completed'', updated_at := py_str now\<rparr>]\<rparr>)"

text \<open>
  \<^verbatim>\<open>handle_failed_job(job)\<close> reads only \<^verbatim>\<open>job["id"]\<close>. \<open>Inl\<close> is an exception that leaves
  the function before \<^verbatim>\<open>_write_data\<close>: the backing file keeps the snapshot it had.
\<close>

definition handle_failed_job :: "config \<Rightarrow> string \<Rightarrow> datetime \<Rightarrow> datetime \<Rightarrow> store \<Rightarrow> py_error + store" where
  "handle_failed_job cfg jid now now2 data =
     (case find_job_index jid (jobs data) of
        None \<Rightarrow> Inr data
      | Some job_index \<Rightarrow>
          let job_in_db = (jobs data ! job_index)\<lparr>attempts := attempts (jobs data ! job_index) + 1\<rparr>
          in if int (attempts job_in_db) \<ge> max_retries job_in_db
             then Inr (data\<lparr>jobs := pop_at job_index (jobs data),
                            dlq := dlq data @ [job_in_db\<lparr>state := ''dead''\<rparr>]\<rparr>)
             else
               let delay_seconds = backoff_base cfg ^ attempts job_in_db
               in case dt_add_seconds now delay_seconds of
                    Inl e \<Rightarrow> Inl e
                  | Inr t \<Rightarrow>
                      Inr (data\<lparr>jobs := (jobs data)[job_index :=
                             job_in_db\<lparr>run_at := py_str t, state := ''pending'',
                                       updated_at := py_str now2\<rparr>]\<rparr>))"

definition retry_dlq_job :: "string \<Rightarrow> datetime \<Rightarrow> datetime \<Rightarrow> store \<Rightarrow> bool \<times> store" where
  "retry_dlq_job jid now now2 data =
     (case find_job_index jid (dlq data) of
        None \<Rightarrow> (False, data)
      | Some job_index \<Rightarrow>
          let job = (dlq data ! job_index)\<lparr>state := ''pending'', attempts := 0,
                                          run_at := py_str now, updated_at := py_str now2\<rparr>
          in (True, data\<lparr>dlq := pop_at job_index (dlq data), jobs := jobs data @ [job]\<rparr>))"

subsection \<open>Worker liveness and the lock\<close>

text \<open>
  \<^verbatim>\<open>_get_lock()\<close> builds a new \<^verbatim>\<open>FileLock(LOCK_FILE, timeout=10)\<close> at every call. A
  FileLock counts re-entries per object, and the lock of the operating system behind it
  belongs to the file descriptor the object opened. A second object can therefore not
  take the lock while a first one holds it, in the same process no less than in another:
  after 10 seconds its \<^verbatim>\<open>with\<close> raises \<^verbatim>\<open>filelock.Timeout\<close>. The job operations above are
  entered with the lock free. \<open>register_worker\<close> is the one function that storage.py also
  calls from inside a \<^verbatim>\<open>with _get_lock():\<close> block, so it takes the state of the lock as
  its first argument.
\<close>

definition register_worker :: "bool \<Rightarrow> int \<Rightarrow> datetime \<Rightarrow> store \<Rightarrow> py_error + store" where
  "register_worker lock_held p now data =
     (if lock_held then Inl LockTimeout
      else Inr (data\<lparr>active_workers :=
                  filter (\<lambda>w. pid w \<noteq> p) (active_workers data)
                  @ [\<lparr>pid = p, last_heartbeat = py_str now\<rparr>]\<rparr>))"

definition unregister_worker :: "int \<Rightarrow> store \<Rightarrow> store" where
  "unregister_worker p data =
     data\<lparr>active_workers := filter (\<lambda>w. pid w \<noteq> p) (active_workers data)\<rparr>"

fun find_worker_index :: "int \<Rightarrow> worker list \<Rightarrow> nat option" where
  "find_worker_index p [] = None"
| "find_worker_index p (w # ws) =
     (if pid w = p then Some 0 else map_option Suc (find_worker_index p ws))"

text \<open>
  \<open>worker_heartbeat\<close>: when no record carries the pid, the snapshot is saved as it was
  loaded and \<open>register_worker\<close> is called while the lock is still held. \<open>Inl\<close> is the
  exception that leaves the function; the backing file then holds the snapshot last
  saved, which is the one that was loaded.
\<close>

definition worker_heartbeat :: "int \<Rightarrow> datetime \<Rightarrow> datetime \<Rightarrow> store \<Rightarrow> py_error + store" where
  "worker_heartbeat p now now2 data =
     (case find_worker_index p (active_workers data) of
        Some i \<Rightarrow>
          Inr (data\<lparr>active_workers :=
                 (active_workers data)[i := (active_workers data ! i)\<lparr>last_heartbeat := py_str now\<rparr>]\<rparr>)
      | None \<Rightarrow> register_worker True p now2 data)"

section \<open>Histories of the store\<close>

text \<open>
  One constructor per operation that saves a snapshot. \<open>Workers\<close> stands for
  \<open>register_worker\<close>, \<open>unregister_worker\<close>, \<open>worker_heartbeat\<close> and \<^verbatim>\<open>get_status\<close>,
  which rewrite the list of liveness records and nothing else.
\<close>

datatype operation =
    Enqueue config string string "int option" datetime
  | Dispatch datetime datetime
  | Complete string datetime
  | Fail config string datetime datetime
  | DlqRetry string datetime datetime
  | Workers "worker list"

fun apply_op :: "operation \<Rightarrow> store \<Rightarrow> store" where
  "apply_op (Enqueue cfg new_id cmd mr now) s = enqueue_job cfg new_id cmd mr now s"
| "apply_op (Dispatch now now2) s = snd (get_next_job_for_worker now now2 s)"
| "apply_op (Complete jid now) s = update_job_to_completed jid now s"
| "apply_op (Fail cfg jid now now2) s =
     (case handle_failed_job cfg jid now now2 s of Inl e \<Rightarrow> s | Inr s' \<Rightarrow> s')"
| "apply_op (DlqRetry jid now now2) s = snd (retry_dlq_job jid now now2 s)"
| "apply_op (Workers ws) s = s\<lparr>active_workers := ws\<rparr>"

fun run_ops :: "operation list \<Rightarrow> store \<Rightarrow> store" where
  "run_ops [] s = s"
| "run_ops (op # ops) s = run_ops ops (apply_op op s)"

definition live_ids :: "store \<Rightarrow> string set" where
  "live_ids s = job_id ` set (jobs s)"

definition dead_ids :: "store \<Rightarrow> string set" where
  "dead_ids s = job_id ` set (dlq s)"

text \<open>\<^verbatim>\<open>uuid.uuid4()\<close> yields an id that no job of the store carries.\<close>

fun fresh_ids :: "operation list \<Rightarrow> store \<Rightarrow> bool" where
  "fresh_ids [] s = True"
| "fresh_ids (Enqueue cfg new_id cmd mr now # ops) s =
     (new_id \<notin> live_ids s \<and> new_id \<notin> dead_ids s
      \<and> fresh_ids ops (enqueue_job cfg new_id cmd mr now s))"
| "fresh_ids (op # ops) s = fresh_ids ops (apply_op op s)"

text \<open>The data model has \<open>max_retries\<close> non-negative: the override if there is one, the
  configured default otherwise.\<close>

fun nonneg_retries :: "operation \<Rightarrow> bool" where
  "nonneg_retries (Enqueue cfg new_id cmd mr now) =
     (0 \<le> (case mr of Some m \<Rightarrow> m | None \<Rightarrow> cfg_max_retries cfg))"
| "nonneg_retries op = True"

text \<open>Dispatch called again and again, at the given readings of the clock.\<close>

fun dispatch_all :: "(datetime \<times> datetime) list \<Rightarrow> store \<Rightarrow> job option list" where
  "dispatch_all [] s = []"
| "dispatch_all ((now, now2) # ts) s =
     (case get_next_job_for_worker now now2 s of (r, s') \<Rightarrow> r # dispatch_all ts s')"






fun the_jobs :: "job option list \<Rightarrow> job list" where
  "the_jobs [] = []"
| "the_jobs (None # rs) = the_jobs rs"
| "the_jobs (Some j # rs) = j # the_jobs rs"

section \<open>Sample snapshots\<close>

text \<open>\<open>T0\<close> is 2024-01-01T12:00:00, \<open>T_eve\<close> is 2024-01-01T23:59:59.\<close>

definition T0 :: datetime where
  "T0 = 63839707200000000"


definition job_a :: job where
  "job_a = \<lparr>job_id = ''a'', command = ''echo hi'', state = ''pending'', attempts = 0,
            max_retries = 3, run_at = py_str T0, created_at = py_str T0, updated_at = py_str T0\<rparr>"

definition job_b :: job where
  "job_b = \<lparr>job_id = ''b'', command = ''false'', state = ''processing'', attempts = 0,
            max_retries = 1, run_at = py_str T0, created_at = py_str T0, updated_at = py_str T0\<rparr>"

definition job_d :: job where
  "job_d = \<lparr>job_id = ''d'', command = ''false'', state = ''dead'', attempts = 3,
            max_retries = 3, run_at = py_str T0, created_at = py_str T0, updated_at = py_str T0\<rparr>"

definition store_a :: store where
  "store_a = \<lparr>jobs = [job_a], dlq = [], active_workers = []\<rparr>"

definition store_b :: store where
  "store_b = \<lparr>jobs = [job_a, job_b], dlq = [job_d], active_workers = []\<rparr>"

text \<open>
  A job enqueued at \<open>T0\<close> under the default configuration, dispatched one second later
  and failed half a second after that.
\<close>

definition failed_once :: store where
  "failed_once = run_ops [Enqueue DEFAULT_CONFIG ''a'' ''false'' None T0,
                          Dispatch (T0 + 1000000) (T0 + 1000000),
                          Fail DEFAULT_CONFIG ''a'' (T0 + 1500000) (T0 + 1500000)] empty_store"

text \<open>Two pending jobs, the older one second in the list.\<close>

definition job_c :: job where
  "job_c = \<lparr>job_id = ''c'', command = ''true'', state = ''pending'', attempts = 0,
            max_retries = 3, run_at = py_str (T0 + 1000000),
            created_at = py_str (T0 + 1000000), updated_at = py_str (T0 + 1000000)\<rparr>"

definition two_pending :: store where
  "two_pending = \<lparr>jobs = [job_c, job_a], dlq = [], active_workers = []\<rparr>"



section \<open>Invariants of a history\<close>

text \<open>Every live job is within its retry budget, and no dead-letter entry has a negative
  budget.\<close>

definition retry_budget_ok :: "store \<Rightarrow> bool" where
  "retry_budget_ok s \<longleftrightarrow>
     (\<forall>j \<in> set (jobs s). int (attempts j) \<le> max_retries j)
     \<and> (\<forall>j \<in> set (dlq s). 0 \<le> max_retries j)"

definition all_ids :: "store \<Rightarrow> string list" where
  "all_ids s = map job_id (jobs s @ dlq s)"

text \<open>After the enqueue of a job a with a budget of one retry: the job is dispatched and
  fails, which exhausts the budget; then it is retried from the dead-letter collection.\<close>

definition history_dead :: "operation list" where
  "history_dead = [Dispatch (T0 + 1000000) (T0 + 1000000),
                   Fail DEFAULT_CONFIG ''a'' (T0 + 1500000) (T0 + 1500000)]"

definition history_retried :: "operation list" where
  "history_retried = history_dead @ [DlqRetry ''a'' (T0 + 1600000) (T0 + 1600000)]"

section \<open>Completion and dead-letter retry\<close>

lemma find_job_index_Some:
  "find_job_index jid js = Some i \<Longrightarrow> i < length js \<and> job_id (js ! i) = jid"
  by (induction js arbitrary: i) (auto split: if_splits)

lemma find_job_index_first:
  "find_job_index jid js = Some i \<Longrightarrow> k < i \<Longrightarrow> job_id (js ! k) \<noteq> jid"
proof (induction js arbitrary: i k)
  case Nil
  then show ?case by simp
next
  case (Cons j js)
  then show ?case by (cases k) (auto split: if_splits)
qed

lemma find_job_index_None:
  "find_job_index jid js = None \<longleftrightarrow> jid \<notin> job_id ` set js"
  by (induction js) auto

lemma find_job_index_present:
  assumes "jid \<in> job_id ` set js"
  shows "\<exists>i. find_job_index jid js = Some i \<and> first_with_id jid js i"
proof -
  from assms obtain i where i: "find_job_index jid js = Some i"
    using find_job_index_None [of jid js] by (cases "find_job_index jid js") auto
  then have "first_with_id jid js i"
    using find_job_index_Some [OF i] find_job_index_first [OF i]
    by (simp add: first_with_id_def)
  with i show ?thesis by blast
qed

text \<open>
  C10: \<open>update_job_to_completed\<close> on an id that the live collection holds marks the first
  job that carries the id as completed and stamps \<open>updated_at\<close>, whatever state the job
  was in: the state it finds is never read, so a pending or an already completed job is
  completed just the same.
\<close>

theorem update_job_to_completed_any_state:
  assumes "jid \<in> job_id ` set (jobs data)"
  shows "\<exists>i. first_with_id jid (jobs data) i
           \<and> update_job_to_completed jid now data =
               data\<lparr>jobs := (jobs data)[i := (jobs data ! i)\<lparr>state := ''completed'',
                                                              updated_at := py_str now\<rparr>]\<rparr>
           \<and> state (jobs (update_job_to_completed jid now data) ! i) = ''completed''
           \<and> updated_at (jobs (update_job_to_completed jid now data) ! i) = py_str now"
proof -
  from find_job_index_present [OF assms] obtain i
    where i: "find_job_index jid (jobs data) = Some i" "first_with_id jid (jobs data) i"
    by blast
  then have "i < length (jobs data)" by (simp add: first_with_id_def)
  with i show ?thesis
    by (intro exI [of _ i]) (simp add: update_job_to_completed_def)
qed

theorem update_job_to_completed_any_state_witness:
  "''a'' \<in> job_id ` set (jobs store_a)
   \<and> state (jobs store_a ! 0) = ''pending''
   \<and> update_job_to_completed ''a'' (T0 + 5) store_a =
       \<lparr>jobs = [job_a\<lparr>state := ''completed'', updated_at := py_str (T0 + 5)\<rparr>],
        dlq = [], active_workers = []\<rparr>
   \<and> (\<exists>i. first_with_id ''a'' (jobs store_a) i
          \<and> state (jobs (update_job_to_completed ''a'' (T0 + 5) store_a) ! i) = ''completed'')"
proof -
  have h: "''a'' \<in> job_id ` set (jobs store_a)"
    by (simp add: store_a_def job_a_def)
  have p: "state (jobs store_a ! 0) = ''pending''"
    by (simp add: store_a_def job_a_def)
  have u: "update_job_to_completed ''a'' (T0 + 5) store_a =
       \<lparr>jobs = [job_a\<lparr>state := ''completed'', updated_at := py_str (T0 + 5)\<rparr>],
        dlq = [], active_workers = []\<rparr>"
    by (simp add: update_job_to_completed_def store_a_def job_a_def)
  show ?thesis
    using h p u update_job_to_completed_any_state [OF h, of "T0 + 5"] by blast
qed

text \<open>
  C7: \<open>retry_dlq_job\<close> on an id that the dead-letter collection holds removes the first
  entry that carries it, resets \<open>attempts\<close> to 0, sets \<open>run_at\<close> to the clock reading and
  \<open>state\<close> to pending, appends the job to the live collection and returns True; on an id
  the dead-letter collection does not hold it returns False and the snapshot is the one
  that was loaded. No branch raises.
\<close>

theorem retry_dlq_job_spec:
  "(jid \<in> job_id ` set (dlq data) \<longrightarrow>
      (\<exists>i. first_with_id jid (dlq data) i
          \<and> retry_dlq_job jid now now2 data =
              (True, data\<lparr>dlq := pop_at i (dlq data),
                          jobs := jobs data @ [(dlq data ! i)\<lparr>state := ''pending'',
                             attempts := 0, run_at := py_str now,
                             updated_at := py_str now2\<rparr>]\<rparr>)))
   \<and> (jid \<notin> job_id ` set (dlq data) \<longrightarrow> retry_dlq_job jid now now2 data = (False, data))"
proof (intro conjI impI)
  assume "jid \<in> job_id ` set (dlq data)"
  from find_job_index_present [OF this] obtain i
    where i: "find_job_index jid (dlq data) = Some i" "first_with_id jid (dlq data) i"
    by blast
  then show "\<exists>i. first_with_id jid (dlq data) i
          \<and> retry_dlq_job jid now now2 data =
              (True, data\<lparr>dlq := pop_at i (dlq data),
                          jobs := jobs data @ [(dlq data ! i)\<lparr>state := ''pending'',
                             attempts := 0, run_at := py_str now,
                             updated_at := py_str now2\<rparr>]\<rparr>)"
    by (intro exI [of _ i]) (simp add: retry_dlq_job_def Let_def)
next
  assume "jid \<notin> job_id ` set (dlq data)"
  then have "find_job_index jid (dlq data) = None"
    by (simp add: find_job_index_None)
  then show "retry_dlq_job jid now now2 data = (False, data)"
    by (simp add: retry_dlq_job_def)
qed

theorem retry_dlq_job_spec_witness:
  "''d'' \<in> job_id ` set (dlq store_b)
   \<and> retry_dlq_job ''d'' T0 (T0 + 1) store_b =
       (True, \<lparr>jobs = [job_a, job_b, job_d\<lparr>state := ''pending'', attempts := 0,
                                          run_at := py_str T0, updated_at := py_str (T0 + 1)\<rparr>],
               dlq = [], active_workers = []\<rparr>)
   \<and> ''a'' \<notin> job_id ` set (dlq store_b)
   \<and> retry_dlq_job ''a'' T0 (T0 + 1) store_b = (False, store_b)"
proof -
  have h: "''d'' \<in> job_id ` set (dlq store_b)"
    by (simp add: store_b_def job_d_def)
  have n: "''a'' \<notin> job_id ` set (dlq store_b)"
    by (simp add: store_b_def job_d_def)
  have r: "retry_dlq_job ''d'' T0 (T0 + 1) store_b =
       (True, \<lparr>jobs = [job_a, job_b, job_d\<lparr>state := ''pending'', attempts := 0,
                                          run_at := py_str T0, updated_at := py_str (T0 + 1)\<rparr>],
               dlq = [], active_workers = []\<rparr>)"
    by (simp add: retry_dlq_job_def store_b_def job_d_def pop_at_def)
  show ?thesis
    using h n r retry_dlq_job_spec [of "''d''" store_b T0 "T0 + 1"]
      retry_dlq_job_spec [of "''a''" store_b T0 "T0 + 1"]
    by blast
qed

section \<open>Loading\<close>



section \<open>Failure handling\<close>

text \<open>
  C3 as stated fails where \<open>now + backoff_base ^ attempts\<close> seconds is not a datetime: job
  a of \<open>store_a\<close> is below its retry limit (0 of 3 attempts), and with
  \<open>backoff_base = 10 ^ 12\<close> the sum is past 9999-12-31T23:59:59.999999. The addition
  raises OverflowError before anything is saved, so the job is neither set to pending nor
  rescheduled.
\<close>

theorem handle_failed_job_counterexample:
  "''a'' \<in> job_id ` set (jobs store_a)
   \<and> int (attempts (jobs store_a ! 0) + 1) < max_retries (jobs store_a ! 0)
   \<and> handle_failed_job (DEFAULT_CONFIG\<lparr>backoff_base := 1000000000000\<rparr>) ''a'' T0 (T0 + 1)
         store_a
       = Inl OverflowError"
  by (simp add: handle_failed_job_def store_a_def job_a_def dt_add_seconds_def T0_def
      MAX_DATETIME_def DEFAULT_CONFIG_def)

text \<open>The same below the first datetime, with a negative base and an odd exponent.\<close>

lemma handle_failed_job_underflow:
  "handle_failed_job (DEFAULT_CONFIG\<lparr>backoff_base := - 1000000000000\<rparr>) ''a'' T0 (T0 + 1)
     store_a
   = Inl OverflowError"
  by (simp add: handle_failed_job_def store_a_def job_a_def dt_add_seconds_def T0_def
      MAX_DATETIME_def DEFAULT_CONFIG_def)

text \<open>
  C3, amended: \<open>handle_failed_job\<close> on an id that the live collection holds increments
  \<open>attempts\<close> of the first job \<open>j\<close> that carries it, before anything else. If the
  incremented count reaches \<open>max_retries\<close>, the job leaves the live collection and is
  appended to the dead-letter collection with state dead and the incremented count; so a
  job failed at \<open>attempts = max_retries - 1\<close> lands there with \<open>attempts = max_retries\<close>.
  Otherwise, provided \<open>now + backoff_base ^ attempts\<close> seconds is a datetime, neither
  before 0001-01-01T00:00:00 nor after 9999-12-31T23:59:59.999999, the job stays in
  place, pending, with \<open>run_at\<close> the text of that datetime, the exponent being the
  incremented count.
\<close>

theorem handle_failed_job_spec:
  assumes "jid \<in> job_id ` set (jobs data)"
  shows "\<exists>i j. first_with_id jid (jobs data) i \<and> j = jobs data ! i
       \<and> (int (attempts j + 1) \<ge> max_retries j \<longrightarrow>
           handle_failed_job cfg jid now now2 data =
             Inr (data\<lparr>jobs := pop_at i (jobs data),
                       dlq := dlq data @ [j\<lparr>attempts := attempts j + 1, state := ''dead''\<rparr>]\<rparr>))
       \<and> (int (attempts j + 1) < max_retries j
            \<and> 0 \<le> now + backoff_base cfg ^ (attempts j + 1) * 1000000
            \<and> now + backoff_base cfg ^ (attempts j + 1) * 1000000 \<le> MAX_DATETIME \<longrightarrow>
           handle_failed_job cfg jid now now2 data =
             Inr (data\<lparr>jobs := (jobs data)[i := j\<lparr>attempts := attempts j + 1,
                        run_at := py_str (now + backoff_base cfg ^ (attempts j + 1) * 1000000),
                        state := ''pending'', updated_at := py_str now2\<rparr>]\<rparr>))"
proof -
  from find_job_index_present [OF assms] obtain i
    where i: "find_job_index jid (jobs data) = Some i" "first_with_id jid (jobs data) i"
    by blast
  then show ?thesis
    by (intro exI [of _ i] exI [of _ "jobs data ! i"])
      (simp add: handle_failed_job_def dt_add_seconds_def Let_def)
qed

text \<open>Both branches; the delay of the retry is two seconds.\<close>

theorem handle_failed_job_spec_witness:
  "''a'' \<in> job_id ` set (jobs store_b)
   \<and> 0 \<le> T0 + backoff_base DEFAULT_CONFIG ^ 1 * 1000000
   \<and> T0 + backoff_base DEFAULT_CONFIG ^ 1 * 1000000 \<le> MAX_DATETIME
   \<and> T0 + backoff_base DEFAULT_CONFIG ^ 1 * 1000000 = T0 + 2000000
   \<and> handle_failed_job DEFAULT_CONFIG ''a'' T0 (T0 + 1) store_b =
       Inr \<lparr>jobs = [job_a\<lparr>attempts := 1, run_at := py_str (T0 + 2000000), state := ''pending'',
                           updated_at := py_str (T0 + 1)\<rparr>, job_b],
            dlq = [job_d], active_workers = []\<rparr>
   \<and> ''b'' \<in> job_id ` set (jobs store_b)
   \<and> handle_failed_job DEFAULT_CONFIG ''b'' T0 (T0 + 1) store_b =
       Inr \<lparr>jobs = [job_a], dlq = [job_d, job_b\<lparr>attempts := 1, state := ''dead''\<rparr>],
            active_workers = []\<rparr>"
proof -
  have a: "''a'' \<in> job_id ` set (jobs store_b)"
    by (simp add: store_b_def job_a_def)
  have b: "''b'' \<in> job_id ` set (jobs store_b)"
    by (simp add: store_b_def job_b_def)
  have t: "0 \<le> T0 + backoff_base DEFAULT_CONFIG ^ 1 * 1000000"
    "T0 + backoff_base DEFAULT_CONFIG ^ 1 * 1000000 \<le> MAX_DATETIME"
    "T0 + backoff_base DEFAULT_CONFIG ^ 1 * 1000000 = T0 + 2000000"
    by (simp_all add: DEFAULT_CONFIG_def T0_def MAX_DATETIME_def)
  have ra: "handle_failed_job DEFAULT_CONFIG ''a'' T0 (T0 + 1) store_b =
       Inr \<lparr>jobs = [job_a\<lparr>attempts := 1, run_at := py_str (T0 + 2000000), state := ''pending'',
                           updated_at := py_str (T0 + 1)\<rparr>, job_b],
            dlq = [job_d], active_workers = []\<rparr>"
    using t by (simp add: handle_failed_job_def dt_add_seconds_def store_b_def job_a_def Let_def)
  have rb: "handle_failed_job DEFAULT_CONFIG ''b'' T0 (T0 + 1) store_b =
       Inr \<lparr>jobs = [job_a], dlq = [job_d, job_b\<lparr>attempts := 1, state := ''dead''\<rparr>],
            active_workers = []\<rparr>"
    by (simp add: handle_failed_job_def store_b_def job_a_def job_b_def pop_at_def Let_def)
  show ?thesis
    using a b t ra rb handle_failed_job_spec [OF a, of DEFAULT_CONFIG T0 "T0 + 1"]
      handle_failed_job_spec [OF b, of DEFAULT_CONFIG T0 "T0 + 1"]
    by blast
qed

section \<open>Dispatch and the backoff delay\<close>

lemma py_str_T0: "py_str T0 = ''2024-01-01 12:00:00''"
  unfolding T0_def by code_simp

lemma py_str_T0_1s: "py_str (T0 + 1000000) = ''2024-01-01 12:00:01''"
  unfolding T0_def by code_simp

lemma py_str_T0_1s5: "py_str (T0 + 1500000) = ''2024-01-01 12:00:01.500000''"
  unfolding T0_def by code_simp

lemma py_str_T0_1s6: "py_str (T0 + 1600000) = ''2024-01-01 12:00:01.600000''"
  unfolding T0_def by code_simp

lemma py_str_T0_3s5: "py_str (T0 + 3500000) = ''2024-01-01 12:00:03.500000''"
  unfolding T0_def by code_simp

lemma isoformat_T0_1s: "isoformat (T0 + 1000000) = ''2024-01-01T12:00:01''"
  unfolding T0_def by code_simp

lemma isoformat_T0_1s6: "isoformat (T0 + 1600000) = ''2024-01-01T12:00:01.600000''"
  unfolding T0_def by code_simp

text \<open>
  The stored text of a datetime has a blank where the text it is compared with has a
  \<^verbatim>\<open>T\<close>, and a blank sorts before \<^verbatim>\<open>T\<close>: on the same day the comparison of
  \<open>eligible\<close> holds whatever the two times of day are.
\<close>

lemma append_Cons_less:
  fixes a b :: char
  shows "a < b \<Longrightarrow> xs @ a # r1 < xs @ b # r2"
  by (induction xs) auto

lemma py_str_less_isoformat_same_day:
  "date_text t = date_text now \<Longrightarrow> py_str t < isoformat now"
  by (simp add: py_str_def isoformat_def isoformat_sep_def append_Cons_less)

lemma eligible_same_day:
  "state j = ''pending'' \<Longrightarrow> run_at j = py_str t \<Longrightarrow> date_text t = date_text now
   \<Longrightarrow> eligible now j"
  using py_str_less_isoformat_same_day [of t now] by (simp add: eligible_def)

lemma failed_once_eq:
  "failed_once =
     \<lparr>jobs = [\<lparr>job_id = ''a'', command = ''false'', state = ''pending'', attempts = 1,
               max_retries = 3, run_at = ''2024-01-01 12:00:03.500000'',
               created_at = ''2024-01-01 12:00:00'',
               updated_at = ''2024-01-01 12:00:01.500000''\<rparr>],
      dlq = [], active_workers = []\<rparr>"
proof -
  have t: "dt_add_seconds (T0 + 1500000) 2 = Inr (T0 + 3500000)"
    by (simp add: dt_add_seconds_def T0_def MAX_DATETIME_def)
  show ?thesis
    by (simp add: failed_once_def empty_store_def enqueue_job_def get_next_job_for_worker_def
        eligible_def handle_failed_job_def DEFAULT_CONFIG_def t py_str_T0 py_str_T0_1s
        py_str_T0_1s5 py_str_T0_3s5 isoformat_T0_1s enumerate_eq_zip Let_def)
qed

text \<open>
  C1, evaluated where it fails: the job of \<open>failed_once\<close> was failed at 12:00:01.5 and
  rescheduled to 12:00:03.5 (\<open>run_at\<close>, two seconds of backoff). A dispatch at 12:00:01.6,
  before that time, returns the job and marks it processing.
\<close>

theorem dispatch_before_run_at:
  "failed_once =
     \<lparr>jobs = [\<lparr>job_id = ''a'', command = ''false'', state = ''pending'', attempts = 1,
               max_retries = 3, run_at = ''2024-01-01 12:00:03.500000'',
               created_at = ''2024-01-01 12:00:00'',
               updated_at = ''2024-01-01 12:00:01.500000''\<rparr>],
      dlq = [], active_workers = []\<rparr>
   \<and> py_str (T0 + 3500000) = ''2024-01-01 12:00:03.500000''
   \<and> isoformat (T0 + 1600000) = ''2024-01-01T12:00:01.600000''
   \<and> T0 + 1600000 < T0 + 3500000
   \<and> fst (get_next_job_for_worker (T0 + 1600000) (T0 + 1600000) failed_once) =
       Some \<lparr>job_id = ''a'', command = ''false'', state = ''processing'', attempts = 1,
             max_retries = 3, run_at = ''2024-01-01 12:00:03.500000'',
             created_at = ''2024-01-01 12:00:00'',
             updated_at = ''2024-01-01 12:00:01.600000''\<rparr>"
  by (simp add: failed_once_eq py_str_T0_3s5 isoformat_T0_1s6 py_str_T0_1s6
      get_next_job_for_worker_def eligible_def enumerate_eq_zip Let_def)

section \<open>Heartbeat of an unregistered worker\<close>

text \<open>
  C9, evaluated where it fails: \<open>worker_heartbeat\<close> for a pid without a liveness record
  calls \<open>register_worker\<close> while it holds the lock; the call cannot take the lock and
  raises the lock timeout. No record is registered.
\<close>

theorem worker_heartbeat_unregistered:
  "find_worker_index p (active_workers data) = None \<Longrightarrow>
   worker_heartbeat p now now2 data = Inl LockTimeout"
  by (simp add: worker_heartbeat_def register_worker_def)

theorem worker_heartbeat_unregistered_witness:
  "find_worker_index 4242 (active_workers empty_store) = None
   \<and> worker_heartbeat 4242 T0 (T0 + 1) empty_store = Inl LockTimeout"
  using worker_heartbeat_unregistered [of 4242 empty_store T0 "T0 + 1"]
  by (simp add: empty_store_def)

section \<open>Which job a dispatch selects\<close>

lemma sort_key_head:
  fixes f :: "'a \<Rightarrow> 'k::linorder"
  assumes "sort_key f xs = y # ys"
  shows "y \<in> set xs" and "\<forall>x \<in> set xs. f y \<le> f x"
    and "\<exists>zs. filter (\<lambda>z. f z = f y) xs = y # zs"
proof -
  have s: "set xs = set (y # ys)"
    using assms set_sort [of f xs] by simp
  then show "y \<in> set xs" by simp
  have "sorted (map f (sort_key f xs))" by (rule sorted_sort_key)
  then have "\<forall>x \<in> set ys. f y \<le> f x"
    using assms by simp
  then show "\<forall>x \<in> set xs. f y \<le> f x"
    using s by auto
  have "filter (\<lambda>z. f z = f y) (sort_key f xs) = filter (\<lambda>z. f z = f y) xs"
    by (rule sort_key_stable)
  then have "filter (\<lambda>z. f z = f y) xs = y # filter (\<lambda>z. f z = f y) ys"
    using assms by simp
  then show "\<exists>zs. filter (\<lambda>z. f z = f y) xs = y # zs"
    by blast
qed

lemma first_of_filter_least_index:
  assumes "sorted (map fst xs)" and "filter Q xs = (i, j) # zs"
    and "(k, j') \<in> set xs" and "Q (k, j')"
  shows "(i::nat) \<le> k"
proof -
  have "sorted (map fst (filter Q xs))"
    using assms(1) by (rule sorted_filter)
  then have "\<forall>x \<in> set zs. i \<le> fst x"
    using assms(2) by simp
  moreover have "(k, j') \<in> set (filter Q xs)"
    using assms(3,4) by simp
  then have "(k, j') \<in> set ((i, j) # zs)"
    by (simp only: assms(2))
  ultimately show ?thesis by auto
qed

lemma sorted_fst_pending:
  "sorted (map fst (filter P (enumerate 0 js)))"
  by (rule sorted_filter) simp

lemma in_pending_iff:
  "(k, j) \<in> set (filter (\<lambda>(i, job). eligible now job) (enumerate 0 js))
   \<longleftrightarrow> k < length js \<and> j = js ! k \<and> eligible now j"
  by (auto simp: in_set_enumerate_eq)

lemma dispatch_None:
  "fst (get_next_job_for_worker now now2 s) = None
   \<longleftrightarrow> (\<forall>j \<in> set (jobs s). \<not> eligible now j)"
proof -
  let ?P = "filter (\<lambda>(i, job). eligible now job) (enumerate 0 (jobs s))"
  have "fst (get_next_job_for_worker now now2 s) = None \<longleftrightarrow> sort_key (\<lambda>x. created_at (snd x)) ?P = []"
    by (simp add: get_next_job_for_worker_def Let_def split: list.splits prod.splits)
  also have "\<dots> \<longleftrightarrow> ?P = []"
    by (metis length_sort length_0_conv)
  also have "\<dots> \<longleftrightarrow> (\<forall>k j. (k, j) \<notin> set ?P)"
    by (metis list.set_intros(1) neq_Nil_conv surj_pair empty_iff empty_set)
  also have "\<dots> \<longleftrightarrow> (\<forall>j \<in> set (jobs s). \<not> eligible now j)"
    unfolding in_pending_iff by (metis in_set_conv_nth nth_mem)
  finally show ?thesis .
qed

lemma dispatch_None_store:
  "fst (get_next_job_for_worker now now2 s) = None \<Longrightarrow> snd (get_next_job_for_worker now now2 s) = s"
  by (simp add: get_next_job_for_worker_def Let_def split: list.splits prod.splits)

lemma dispatch_Some:
  assumes "get_next_job_for_worker now now2 s = (Some r, s')"
  shows "\<exists>i < length (jobs s).
           eligible now (jobs s ! i)
         \<and> r = (jobs s ! i)\<lparr>state := ''processing'', updated_at := py_str now2\<rparr>
         \<and> s' = s\<lparr>jobs := (jobs s)[i := r]\<rparr>
         \<and> (\<forall>k < length (jobs s). eligible now (jobs s ! k) \<longrightarrow>
               created_at (jobs s ! i) \<le> created_at (jobs s ! k)
             \<and> (created_at (jobs s ! k) = created_at (jobs s ! i) \<longrightarrow> i \<le> k))"
proof -
  let ?f = "\<lambda>x::nat \<times> job. created_at (snd x)"
  let ?P = "filter (\<lambda>(i, job). eligible now job) (enumerate 0 (jobs s))"
  obtain i j rest where S: "sort_key ?f ?P = (i, j) # rest"
    using assms
    by (auto simp: get_next_job_for_worker_def Let_def split: list.splits prod.splits)
  have r: "r = j\<lparr>state := ''processing'', updated_at := py_str now2\<rparr>"
    and s': "s' = s\<lparr>jobs := (jobs s)[i := r]\<rparr>"
    using assms S by (auto simp: get_next_job_for_worker_def Let_def)
  have mem: "(i, j) \<in> set ?P"
    using sort_key_head(1) [OF S] .
  then have "i < length (jobs s) \<and> j = jobs s ! i \<and> eligible now j"
    by (rule iffD1 [OF in_pending_iff])
  then have i: "i < length (jobs s)" and j: "j = jobs s ! i" and e: "eligible now j"
    by blast+
  have least: "\<forall>x \<in> set ?P. ?f (i, j) \<le> ?f x"
    using sort_key_head(2) [OF S] .
  obtain zs where first: "filter (\<lambda>z. ?f z = ?f (i, j)) ?P = (i, j) # zs"
    using sort_key_head(3) [OF S] by blast
  have "created_at (jobs s ! i) \<le> created_at (jobs s ! k)
        \<and> (created_at (jobs s ! k) = created_at (jobs s ! i) \<longrightarrow> i \<le> k)"
    if k: "k < length (jobs s)" and ek: "eligible now (jobs s ! k)" for k
  proof
    have memk: "(k, jobs s ! k) \<in> set ?P"
      using k ek by (intro iffD2 [OF in_pending_iff]) simp
    from least memk show "created_at (jobs s ! i) \<le> created_at (jobs s ! k)"
      using j by fastforce
    show "created_at (jobs s ! k) = created_at (jobs s ! i) \<longrightarrow> i \<le> k"
    proof
      assume "created_at (jobs s ! k) = created_at (jobs s ! i)"
      then have "?f (k, jobs s ! k) = ?f (i, j)" using j by simp
      with first_of_filter_least_index [OF sorted_fst_pending first memk]
      show "i \<le> k" by simp
    qed
  qed
  with i j e r s' show ?thesis by blast
qed

lemma dispatch_cases:
  obtains (none) "get_next_job_for_worker now now2 s = (None, s)"
      and "\<forall>j \<in> set (jobs s). \<not> eligible now j"
  | (some) i where "i < length (jobs s)" and "eligible now (jobs s ! i)"
      and "get_next_job_for_worker now now2 s =
             (Some ((jobs s ! i)\<lparr>state := ''processing'', updated_at := py_str now2\<rparr>),
              s\<lparr>jobs := (jobs s)[i := (jobs s ! i)\<lparr>state := ''processing'', updated_at := py_str now2\<rparr>]\<rparr>)"
      and "\<forall>k < length (jobs s). eligible now (jobs s ! k) \<longrightarrow>
               created_at (jobs s ! i) \<le> created_at (jobs s ! k)"
proof (cases "fst (get_next_job_for_worker now now2 s)")
  case None
  then have "get_next_job_for_worker now now2 s = (None, s)"
    using dispatch_None_store [of now now2 s] by (simp add: prod_eq_iff)
  moreover have "\<forall>j \<in> set (jobs s). \<not> eligible now j"
    using None by (simp add: dispatch_None)
  ultimately show ?thesis by (rule none)
next
  case (Some r)
  then have "get_next_job_for_worker now now2 s = (Some r, snd (get_next_job_for_worker now now2 s))"
    by (simp add: prod_eq_iff)
  from dispatch_Some [OF this] show ?thesis
    using some by (metis \<open>get_next_job_for_worker now now2 s = (Some r, snd (get_next_job_for_worker now now2 s))\<close>)
qed

lemma not_eligible_processing:
  "state j = ''processing'' \<Longrightarrow> \<not> eligible t j"
  by (simp add: eligible_def)

text \<open>Every job that a run of dispatches returns was pending in the snapshot the run
  started from, and eligible at one of the calls.\<close>

lemma dispatch_all_from_pending:
  "r \<in> set (the_jobs (dispatch_all ts s)) \<Longrightarrow>
   \<exists>k < length (jobs s). state (jobs s ! k) = ''pending'' \<and> job_id (jobs s ! k) = job_id r
      \<and> created_at (jobs s ! k) = created_at r \<and> (\<exists>t \<in> set ts. eligible (fst t) (jobs s ! k))"
proof (induction ts arbitrary: s)
  case Nil
  then show ?case by simp
next
  case (Cons t ts)
  obtain now now2 where t: "t = (now, now2)" by (cases t)
  show ?case
  proof (cases rule: dispatch_cases [of now now2 s])
    case none
    with Cons.prems t have "r \<in> set (the_jobs (dispatch_all ts s))" by simp
    from Cons.IH [OF this] show ?thesis by auto
  next
    case (some i)
    let ?m = "(jobs s ! i)\<lparr>state := ''processing'', updated_at := py_str now2\<rparr>"
    let ?s' = "s\<lparr>jobs := (jobs s)[i := ?m]\<rparr>"
    from Cons.prems t some(3)
    consider "r = ?m" | "r \<in> set (the_jobs (dispatch_all ts ?s'))" by auto
    then show ?thesis
    proof cases
      case 1
      then show ?thesis using some(1,2) t by (auto simp: eligible_def intro!: exI [of _ i])
    next
      case 2
      from Cons.IH [OF this] obtain k u where k: "k < length (jobs ?s')"
        "state (jobs ?s' ! k) = ''pending''" "job_id (jobs ?s' ! k) = job_id r"
        "created_at (jobs ?s' ! k) = created_at r" "u \<in> set ts" "eligible (fst u) (jobs ?s' ! k)"
        by blast
      have "k \<noteq> i" using k(1,2) by auto
      then have "jobs ?s' ! k = jobs s ! k" by simp
      with k show ?thesis by (auto intro!: exI [of _ k])
    qed
  qed
qed

lemma distinct_dispatch_all:
  "distinct (map job_id (jobs s)) \<Longrightarrow> distinct (map job_id (the_jobs (dispatch_all ts s)))"
proof (induction ts arbitrary: s)
  case Nil
  then show ?case by simp
next
  case (Cons t ts)
  obtain now now2 where t: "t = (now, now2)" by (cases t)
  show ?case
  proof (cases rule: dispatch_cases [of now now2 s])
    case none
    then show ?thesis using Cons t by simp
  next
    case (some i)
    let ?m = "(jobs s ! i)\<lparr>state := ''processing'', updated_at := py_str now2\<rparr>"
    let ?s' = "s\<lparr>jobs := (jobs s)[i := ?m]\<rparr>"
    have ids: "map job_id (jobs ?s') = map job_id (jobs s)"
      using some(1) by (simp add: map_update list_update_same_conv)
    then have d': "distinct (map job_id (jobs ?s'))"
      using Cons.prems by simp
    have "job_id ?m \<noteq> job_id r" if "r \<in> set (the_jobs (dispatch_all ts ?s'))" for r
    proof -
      from dispatch_all_from_pending [OF that] obtain k where k: "k < length (jobs ?s')"
        "state (jobs ?s' ! k) = ''pending''" "job_id (jobs ?s' ! k) = job_id r"
        by blast
      have ki: "k \<noteq> i" using k(1,2) by auto
      have "job_id (jobs s ! k) \<noteq> job_id (jobs s ! i)"
        using Cons.prems ki k(1) some(1) by (simp add: distinct_conv_nth)
      then show ?thesis using ki k(3) by simp
    qed
    then have "job_id ?m \<notin> job_id ` set (the_jobs (dispatch_all ts ?s'))" by blast
    then show ?thesis
      using Cons.IH [OF d'] some(3) t by simp
  qed
qed


lemma the_jobs_Some_None [simp]:
  "the_jobs (map Some js @ replicate n None) = js"
proof (induction js)
  case Nil
  show ?case by (induction n) simp_all
next
  case (Cons j js)
  then show ?case by simp
qed



section \<open>Lease exclusivity\<close>

text \<open>
  C2: in a snapshot whose live jobs carry distinct ids, a job that a dispatch returned is
  saved as processing, and the next dispatch on the snapshot that was saved returns a job
  with another id (if it returns one). More generally, however many dispatches follow one
  another, no two of them return the same id.
\<close>

theorem lease_exclusive:
  assumes "distinct (map job_id (jobs s))"
  shows "(\<forall>j s' j' s''. get_next_job_for_worker now now2 s = (Some j, s')
            \<and> get_next_job_for_worker t t2 s' = (Some j', s'') \<longrightarrow> job_id j' \<noteq> job_id j)
       \<and> distinct (map job_id (the_jobs (dispatch_all ts s)))"
proof (intro conjI allI impI)
  fix j s' j' s''
  assume a: "get_next_job_for_worker now now2 s = (Some j, s')
            \<and> get_next_job_for_worker t t2 s' = (Some j', s'')"
  then have "the_jobs (dispatch_all [(now, now2), (t, t2)] s) = [j, j']" by simp
  with distinct_dispatch_all [OF assms, of "[(now, now2), (t, t2)]"]
  show "job_id j' \<noteq> job_id j" by auto
next
  show "distinct (map job_id (the_jobs (dispatch_all ts s)))"
    using assms by (rule distinct_dispatch_all)
qed

lemma dispatch_two_pending:
  "dispatch_all [(T0 + 1600000, T0 + 1600000), (T0 + 1600000, T0 + 1600000),
                 (T0 + 1600000, T0 + 1600000)] two_pending
   = [Some (job_a\<lparr>state := ''processing'', updated_at := py_str (T0 + 1600000)\<rparr>),
      Some (job_c\<lparr>state := ''processing'', updated_at := py_str (T0 + 1600000)\<rparr>),
      None]"
  by (simp add: two_pending_def job_a_def job_c_def get_next_job_for_worker_def eligible_def
      py_str_T0 py_str_T0_1s isoformat_T0_1s6 enumerate_eq_zip Let_def)

theorem lease_exclusive_witness:
  "distinct (map job_id (jobs two_pending))
   \<and> get_next_job_for_worker (T0 + 1600000) (T0 + 1600000) two_pending =
       (Some (job_a\<lparr>state := ''processing'', updated_at := py_str (T0 + 1600000)\<rparr>),
        \<lparr>jobs = [job_c, job_a\<lparr>state := ''processing'', updated_at := py_str (T0 + 1600000)\<rparr>],
         dlq = [], active_workers = []\<rparr>)
   \<and> get_next_job_for_worker (T0 + 1600000) (T0 + 1600000)
        \<lparr>jobs = [job_c, job_a\<lparr>state := ''processing'', updated_at := py_str (T0 + 1600000)\<rparr>],
         dlq = [], active_workers = []\<rparr> =
       (Some (job_c\<lparr>state := ''processing'', updated_at := py_str (T0 + 1600000)\<rparr>),
        \<lparr>jobs = [job_c\<lparr>state := ''processing'', updated_at := py_str (T0 + 1600000)\<rparr>,
                 job_a\<lparr>state := ''processing'', updated_at := py_str (T0 + 1600000)\<rparr>],
         dlq = [], active_workers = []\<rparr>)
   \<and> job_id job_c \<noteq> job_id job_a
   \<and> distinct (map job_id (the_jobs (dispatch_all [(T0 + 1600000, T0 + 1600000),
         (T0 + 1600000, T0 + 1600000), (T0 + 1600000, T0 + 1600000)] two_pending)))"
proof -
  have d: "distinct (map job_id (jobs two_pending))"
    by (simp add: two_pending_def job_a_def job_c_def)
  have g1: "get_next_job_for_worker (T0 + 1600000) (T0 + 1600000) two_pending =
       (Some (job_a\<lparr>state := ''processing'', updated_at := py_str (T0 + 1600000)\<rparr>),
        \<lparr>jobs = [job_c, job_a\<lparr>state := ''processing'', updated_at := py_str (T0 + 1600000)\<rparr>],
         dlq = [], active_workers = []\<rparr>)"
    by (simp add: two_pending_def job_a_def job_c_def get_next_job_for_worker_def eligible_def
        py_str_T0 py_str_T0_1s isoformat_T0_1s6 enumerate_eq_zip Let_def)
  have g2: "get_next_job_for_worker (T0 + 1600000) (T0 + 1600000)
        \<lparr>jobs = [job_c, job_a\<lparr>state := ''processing'', updated_at := py_str (T0 + 1600000)\<rparr>],
         dlq = [], active_workers = []\<rparr> =
       (Some (job_c\<lparr>state := ''processing'', updated_at := py_str (T0 + 1600000)\<rparr>),
        \<lparr>jobs = [job_c\<lparr>state := ''processing'', updated_at := py_str (T0 + 1600000)\<rparr>,
                 job_a\<lparr>state := ''processing'', updated_at := py_str (T0 + 1600000)\<rparr>],
         dlq = [], active_workers = []\<rparr>)"
    by (simp add: job_a_def job_c_def get_next_job_for_worker_def eligible_def
        py_str_T0 py_str_T0_1s isoformat_T0_1s6 enumerate_eq_zip Let_def)
  show ?thesis
    using d g1 g2
      lease_exclusive [OF d, of "T0 + 1600000" "T0 + 1600000" "T0 + 1600000" "T0 + 1600000"
        "[(T0 + 1600000, T0 + 1600000), (T0 + 1600000, T0 + 1600000),
          (T0 + 1600000, T0 + 1600000)]"]
    by (simp add: job_a_def job_c_def)
qed

section \<open>Order of dispatch\<close>



















section \<open>The retry budget\<close>

lemma set_pop_at: "set (pop_at i xs) \<subseteq> set xs"
  unfolding pop_at_def using set_take_subset [of i xs] set_drop_subset [of "Suc i" xs] by auto

lemma retry_budget_enqueue:
  "retry_budget_ok s \<Longrightarrow> nonneg_retries (Enqueue cfg new_id cmd mr now)
   \<Longrightarrow> retry_budget_ok (enqueue_job cfg new_id cmd mr now s)"
  by (auto simp: retry_budget_ok_def enqueue_job_def Let_def)

lemma retry_budget_dispatch:
  "retry_budget_ok s \<Longrightarrow> retry_budget_ok (snd (get_next_job_for_worker now now2 s))"
proof (cases rule: dispatch_cases [of now now2 s])
  case none
  assume "retry_budget_ok s"
  then show ?thesis using none by simp
next
  case (some i)
  assume ok: "retry_budget_ok s"
  let ?m = "(jobs s ! i)\<lparr>state := ''processing'', updated_at := py_str now2\<rparr>"
  have "set ((jobs s)[i := ?m]) \<subseteq> insert ?m (set (jobs s))"
    by (rule set_update_subset_insert)
  moreover have "int (attempts ?m) \<le> max_retries ?m"
    using ok some(1) by (simp add: retry_budget_ok_def)
  ultimately show ?thesis
    using ok some(3) by (auto simp: retry_budget_ok_def)
qed

lemma retry_budget_complete:
  assumes "retry_budget_ok s"
  shows "retry_budget_ok (update_job_to_completed jid now s)"
proof (cases "find_job_index jid (jobs s)")
  case None
  then show ?thesis using assms by (simp add: update_job_to_completed_def)
next
  case (Some i)
  let ?m = "(jobs s ! i)\<lparr>state := ''completed'', updated_at := py_str now\<rparr>"
  have i: "i < length (jobs s)" using find_job_index_Some [OF Some] by simp
  have "set ((jobs s)[i := ?m]) \<subseteq> insert ?m (set (jobs s))"
    by (rule set_update_subset_insert)
  moreover have "int (attempts ?m) \<le> max_retries ?m"
    using assms i by (simp add: retry_budget_ok_def)
  ultimately show ?thesis
    using assms Some by (auto simp: retry_budget_ok_def update_job_to_completed_def)
qed

lemma retry_budget_fail:
  assumes "retry_budget_ok s" and "handle_failed_job cfg jid now now2 s = Inr s'"
  shows "retry_budget_ok s'"
proof (cases "find_job_index jid (jobs s)")
  case None
  then show ?thesis using assms by (simp add: handle_failed_job_def)
next
  case (Some i)
  let ?j = "jobs s ! i"
  have i: "i < length (jobs s)" using find_job_index_Some [OF Some] by simp
  then have j: "int (attempts ?j) \<le> max_retries ?j"
    using assms(1) by (simp add: retry_budget_ok_def)
  show ?thesis
  proof (cases "int (attempts ?j + 1) \<ge> max_retries ?j")
    case True
    then have s': "s' = s\<lparr>jobs := pop_at i (jobs s),
                          dlq := dlq s @ [?j\<lparr>attempts := attempts ?j + 1, state := ''dead''\<rparr>]\<rparr>"
      using assms(2) Some by (simp add: handle_failed_job_def Let_def)
    have "0 \<le> max_retries ?j" using j by linarith
    then show ?thesis
      using assms(1) set_pop_at [of i "jobs s"] unfolding s'
      by (auto simp: retry_budget_ok_def)
  next
    case False
    then obtain t where s': "s' = s\<lparr>jobs := (jobs s)[i := ?j\<lparr>attempts := attempts ?j + 1,
                          run_at := py_str t, state := ''pending'', updated_at := py_str now2\<rparr>]\<rparr>"
      using assms(2) Some by (auto simp: handle_failed_job_def Let_def split: sum.splits)
    let ?m = "?j\<lparr>attempts := attempts ?j + 1,
                          run_at := py_str t, state := ''pending'', updated_at := py_str now2\<rparr>"
    have "set ((jobs s)[i := ?m]) \<subseteq> insert ?m (set (jobs s))"
      by (rule set_update_subset_insert)
    moreover have "int (attempts ?m) \<le> max_retries ?m"
      using False by simp
    ultimately show ?thesis
      using assms(1) unfolding s' by (auto simp: retry_budget_ok_def)
  qed
qed

lemma retry_budget_dlq_retry:
  assumes "retry_budget_ok s"
  shows "retry_budget_ok (snd (retry_dlq_job jid now now2 s))"
proof (cases "find_job_index jid (dlq s)")
  case None
  then show ?thesis using assms by (simp add: retry_dlq_job_def)
next
  case (Some i)
  have i: "i < length (dlq s)" using find_job_index_Some [OF Some] by simp
  then have "0 \<le> max_retries (dlq s ! i)"
    using assms by (simp add: retry_budget_ok_def)
  then show ?thesis
    using assms Some set_pop_at [of i "dlq s"]
    by (auto simp: retry_budget_ok_def retry_dlq_job_def Let_def)
qed

lemma retry_budget_apply_op:
  assumes "retry_budget_ok s" and "nonneg_retries op"
  shows "retry_budget_ok (apply_op op s)"
proof (cases op)
  case (Enqueue cfg new_id cmd mr now)
  then show ?thesis using assms by (simp add: retry_budget_enqueue)
next
  case (Dispatch now now2)
  then show ?thesis using assms by (simp add: retry_budget_dispatch)
next
  case (Complete jid now)
  then show ?thesis using assms by (simp add: retry_budget_complete)
next
  case (Fail cfg jid now now2)
  then show ?thesis
    using assms(1) retry_budget_fail [of s cfg jid now now2]
    by (cases "handle_failed_job cfg jid now now2 s") simp_all
next
  case (DlqRetry jid now now2)
  then show ?thesis using assms by (simp add: retry_budget_dlq_retry)
next
  case (Workers ws)
  then show ?thesis using assms by (simp add: retry_budget_ok_def)
qed

lemma retry_budget_run_ops:
  "retry_budget_ok s \<Longrightarrow> \<forall>op \<in> set ops. nonneg_retries op \<Longrightarrow> retry_budget_ok (run_ops ops s)"
  by (induction ops arbitrary: s) (simp_all add: retry_budget_apply_op)

text \<open>
  C5 as stated fails: \<open>enqueue_job\<close> takes any integer as \<open>max_retries\<close>. Enqueued with
  \<open>max_retries = -1\<close>, a job is pending with \<open>attempts = 0\<close>, above its \<open>max_retries\<close>.
\<close>

theorem attempts_within_max_retries_counterexample:
  "jobs (run_ops [Enqueue DEFAULT_CONFIG ''a'' ''true'' (Some (- 1)) T0] empty_store) =
     [\<lparr>job_id = ''a'', command = ''true'', state = ''pending'', attempts = 0,
       max_retries = - 1, run_at = py_str T0, created_at = py_str T0, updated_at = py_str T0\<rparr>]
   \<and> \<not> int (attempts
         (jobs (run_ops [Enqueue DEFAULT_CONFIG ''a'' ''true'' (Some (- 1)) T0] empty_store) ! 0))
       \<le> max_retries
         (jobs (run_ops [Enqueue DEFAULT_CONFIG ''a'' ''true'' (Some (- 1)) T0] empty_store) ! 0)"
  by (simp add: enqueue_job_def empty_store_def)

text \<open>
  C5, amended: start from the empty snapshot and apply any operations of the store, each
  enqueue with a non-negative \<open>max_retries\<close> (its override, or else the configured
  default), as the data model has it. In the snapshot reached, every live job that is
  pending or processing has \<open>attempts \<le> max_retries\<close>.
\<close>

theorem attempts_within_max_retries:
  assumes "\<forall>op \<in> set ops. nonneg_retries op"
  shows "\<forall>j \<in> set (jobs (run_ops ops empty_store)).
           state j = ''pending'' \<or> state j = ''processing'' \<longrightarrow> int (attempts j) \<le> max_retries j"
proof -
  have "retry_budget_ok empty_store"
    by (simp add: retry_budget_ok_def empty_store_def)
  then have "retry_budget_ok (run_ops ops empty_store)"
    using assms by (rule retry_budget_run_ops)
  then show ?thesis by (simp add: retry_budget_ok_def)
qed

theorem attempts_within_max_retries_witness:
  "jobs failed_once =
     [\<lparr>job_id = ''a'', command = ''false'', state = ''pending'', attempts = 1,
       max_retries = 3, run_at = ''2024-01-01 12:00:03.500000'',
       created_at = ''2024-01-01 12:00:00'',
       updated_at = ''2024-01-01 12:00:01.500000''\<rparr>]
   \<and> state (jobs failed_once ! 0) = ''pending''
   \<and> int (attempts (jobs failed_once ! 0)) \<le> max_retries (jobs failed_once ! 0)"
proof -
  have h: "\<forall>op \<in> set [Enqueue DEFAULT_CONFIG ''a'' ''false'' None T0,
                        Dispatch (T0 + 1000000) (T0 + 1000000),
                        Fail DEFAULT_CONFIG ''a'' (T0 + 1500000) (T0 + 1500000)].
             nonneg_retries op"
    by (simp add: DEFAULT_CONFIG_def)
  have "\<forall>j \<in> set (jobs failed_once).
          state j = ''pending'' \<or> state j = ''processing'' \<longrightarrow> int (attempts j) \<le> max_retries j"
    using attempts_within_max_retries [OF h] by (simp only: failed_once_def)
  moreover have "jobs failed_once ! 0 \<in> set (jobs failed_once)"
    by (simp add: failed_once_eq)
  moreover have "state (jobs failed_once ! 0) = ''pending''"
    by (simp add: failed_once_eq)
  ultimately show ?thesis
    by (simp add: failed_once_eq)
qed

section \<open>One collection per job\<close>

lemma pop_at_decomp:
  "i < length xs \<Longrightarrow> \<exists>A B. xs = A @ xs ! i # B \<and> pop_at i xs = A @ B"
  unfolding pop_at_def using id_take_nth_drop [of i xs] by blast

lemma ids_update_same:
  "i < length js \<Longrightarrow> job_id m = job_id (js ! i) \<Longrightarrow> map job_id (js[i := m]) = map job_id js"
  by (simp add: map_update list_update_same_conv)

lemma all_ids_dispatch:
  "all_ids (snd (get_next_job_for_worker now now2 s)) = all_ids s"
proof (cases rule: dispatch_cases [of now now2 s])
  case none
  then show ?thesis by simp
next
  case (some i)
  then show ?thesis by (simp add: all_ids_def ids_update_same)
qed

lemma all_ids_complete:
  "all_ids (update_job_to_completed jid now s) = all_ids s"
proof (cases "find_job_index jid (jobs s)")
  case None
  then show ?thesis by (simp add: update_job_to_completed_def)
next
  case (Some i)
  then show ?thesis
    using find_job_index_Some [OF Some]
    by (simp add: update_job_to_completed_def all_ids_def ids_update_same)
qed

lemma all_ids_fail:
  assumes "handle_failed_job cfg jid now now2 s = Inr s'"
  shows "set (all_ids s') = set (all_ids s) \<and> (distinct (all_ids s) \<longrightarrow> distinct (all_ids s'))"
proof (cases "find_job_index jid (jobs s)")
  case None
  then show ?thesis using assms by (simp add: handle_failed_job_def)
next
  case (Some i)
  let ?j = "jobs s ! i"
  have i: "i < length (jobs s)" using find_job_index_Some [OF Some] by simp
  show ?thesis
  proof (cases "int (attempts ?j + 1) \<ge> max_retries ?j")
    case True
    then have s': "s' = s\<lparr>jobs := pop_at i (jobs s),
                          dlq := dlq s @ [?j\<lparr>attempts := attempts ?j + 1, state := ''dead''\<rparr>]\<rparr>"
      using assms Some by (simp add: handle_failed_job_def Let_def)
    obtain A B where AB: "jobs s = A @ ?j # B" "pop_at i (jobs s) = A @ B"
      using pop_at_decomp [OF i] by blast
    have "all_ids s = map job_id A @ job_id ?j # map job_id B @ map job_id (dlq s)"
      using AB(1) unfolding all_ids_def by (metis append_Cons append_assoc list.simps(9) map_append)
    moreover have "all_ids s' = map job_id A @ map job_id B @ map job_id (dlq s) @ [job_id ?j]"
      unfolding s' all_ids_def by (simp add: AB(2))
    ultimately show ?thesis by auto
  next
    case False
    then obtain t where s': "s' = s\<lparr>jobs := (jobs s)[i := ?j\<lparr>attempts := attempts ?j + 1,
                          run_at := py_str t, state := ''pending'', updated_at := py_str now2\<rparr>]\<rparr>"
      using assms Some by (auto simp: handle_failed_job_def Let_def split: sum.splits)
    show ?thesis unfolding s' using i by (simp add: all_ids_def ids_update_same)
  qed
qed

lemma all_ids_dlq_retry:
  "set (all_ids (snd (retry_dlq_job jid now now2 s))) = set (all_ids s)
   \<and> (distinct (all_ids s) \<longrightarrow> distinct (all_ids (snd (retry_dlq_job jid now now2 s))))"
proof (cases "find_job_index jid (dlq s)")
  case None
  then show ?thesis by (simp add: retry_dlq_job_def)
next
  case (Some i)
  let ?j = "dlq s ! i"
  have i: "i < length (dlq s)" using find_job_index_Some [OF Some] by simp
  obtain A B where AB: "dlq s = A @ ?j # B" "pop_at i (dlq s) = A @ B"
    using pop_at_decomp [OF i] by blast
  have "all_ids s = map job_id (jobs s) @ map job_id A @ job_id ?j # map job_id B"
    using AB(1) unfolding all_ids_def by (metis list.simps(9) map_append)
  moreover have "all_ids (snd (retry_dlq_job jid now now2 s))
       = map job_id (jobs s) @ job_id ?j # map job_id A @ map job_id B"
    using Some by (simp add: retry_dlq_job_def Let_def all_ids_def AB(2))
  ultimately show ?thesis by auto
qed

lemma all_ids_enqueue:
  "set (all_ids (enqueue_job cfg new_id cmd mr now s)) = insert new_id (set (all_ids s))
   \<and> (distinct (all_ids s) \<and> new_id \<notin> set (all_ids s)
        \<longrightarrow> distinct (all_ids (enqueue_job cfg new_id cmd mr now s)))"
  by (auto simp: all_ids_def enqueue_job_def Let_def)

lemma set_all_ids: "set (all_ids s) = live_ids s \<union> dead_ids s"
  by (auto simp: all_ids_def live_ids_def dead_ids_def)

lemma fresh_ids_Cons:
  "fresh_ids (op # ops) s \<Longrightarrow> fresh_ids ops (apply_op op s)"
  by (cases op) simp_all

lemma apply_op_ids:
  assumes "fresh_ids (op # ops) s"
  shows "set (all_ids s) \<subseteq> set (all_ids (apply_op op s))
       \<and> (distinct (all_ids s) \<longrightarrow> distinct (all_ids (apply_op op s)))"
proof (cases op)
  case (Enqueue cfg new_id cmd mr now)
  then have "new_id \<notin> set (all_ids s)" using assms by (simp add: set_all_ids)
  then show ?thesis using Enqueue all_ids_enqueue [of cfg new_id cmd mr now s] by auto
next
  case (Dispatch now now2)
  then show ?thesis by (simp add: all_ids_dispatch)
next
  case (Complete jid now)
  then show ?thesis by (simp add: all_ids_complete)
next
  case (Fail cfg jid now now2)
  then show ?thesis
    using all_ids_fail [of cfg jid now now2 s]
    by (cases "handle_failed_job cfg jid now now2 s") simp_all
next
  case (DlqRetry jid now now2)
  then show ?thesis using all_ids_dlq_retry [of jid now now2 s] by simp
next
  case (Workers ws)
  then show ?thesis by (simp add: all_ids_def)
qed

lemma run_ops_ids:
  "fresh_ids ops s \<Longrightarrow>
   set (all_ids s) \<subseteq> set (all_ids (run_ops ops s))
   \<and> (distinct (all_ids s) \<longrightarrow> distinct (all_ids (run_ops ops s)))"
proof (induction ops arbitrary: s)
  case Nil
  then show ?case by simp
next
  case (Cons op ops)
  from apply_op_ids [OF Cons.prems] Cons.IH [OF fresh_ids_Cons [OF Cons.prems]]
  show ?case by auto
qed

lemma run_ops_append: "run_ops (ops1 @ ops2) s = run_ops ops2 (run_ops ops1 s)"
  by (induction ops1 arbitrary: s) simp_all

lemma fresh_ids_append:
  "fresh_ids (ops1 @ ops2) s \<Longrightarrow> fresh_ids ops1 s \<and> fresh_ids ops2 (run_ops ops1 s)"
proof (induction ops1 arbitrary: s)
  case Nil
  then show ?case by simp
next
  case (Cons op ops1)
  then show ?case by (cases op) simp_all
qed

lemma count_one:
  "distinct (map f xs) \<Longrightarrow> y \<in> f ` set xs \<Longrightarrow> length (filter (\<lambda>x. f x = y) xs) = 1"
proof (induction xs)
  case Nil
  then show ?case by simp
next
  case (Cons x xs)
  show ?case
  proof (cases "f x = y")
    case True
    then have "y \<notin> f ` set xs" using Cons.prems(1) by auto
    then have "filter (\<lambda>x. f x = y) xs = []" by (auto simp: filter_empty_conv)
    then show ?thesis using True by simp
  next
    case False
    then show ?thesis using Cons by auto
  qed
qed

text \<open>
  C6: take any history from the empty snapshot in which every enqueue draws an id that
  no job of the store carries, and any enqueue in it. In the snapshot the history
  reaches, the id of the enqueued job is in exactly one of the live collection and the
  dead-letter collection, and exactly one record of the two collections carries it.
  Every operation saves once, so a move between the collections is never observed half
  done.
\<close>

theorem exactly_one_collection:
  assumes "fresh_ids (ops1 @ Enqueue cfg new_id cmd mr now # ops2) empty_store"
  shows "((new_id \<in> live_ids (run_ops (ops1 @ Enqueue cfg new_id cmd mr now # ops2) empty_store))
          \<noteq> (new_id \<in> dead_ids (run_ops (ops1 @ Enqueue cfg new_id cmd mr now # ops2) empty_store)))
       \<and> length (filter (\<lambda>j. job_id j = new_id)
            (jobs (run_ops (ops1 @ Enqueue cfg new_id cmd mr now # ops2) empty_store)
             @ dlq (run_ops (ops1 @ Enqueue cfg new_id cmd mr now # ops2) empty_store))) = 1"
proof -
  let ?ops = "ops1 @ Enqueue cfg new_id cmd mr now # ops2"
  let ?s = "run_ops ?ops empty_store"
  let ?s1 = "run_ops ops1 empty_store"
  let ?s2 = "enqueue_job cfg new_id cmd mr now ?s1"
  have "distinct (all_ids empty_store)" by (simp add: all_ids_def empty_store_def)
  then have d: "distinct (all_ids ?s)" using run_ops_ids [OF assms] by simp
  have f2: "fresh_ids ops2 ?s2"
    using fresh_ids_append [OF assms] by simp
  have "new_id \<in> set (all_ids ?s2)"
    using all_ids_enqueue [of cfg new_id cmd mr now ?s1] by simp
  then have "new_id \<in> set (all_ids (run_ops ops2 ?s2))"
    using run_ops_ids [OF f2] by blast
  then have m: "new_id \<in> set (all_ids ?s)" by (simp add: run_ops_append)
  from d have "live_ids ?s \<inter> dead_ids ?s = {}"
    by (simp add: all_ids_def live_ids_def dead_ids_def)
  with m have "(new_id \<in> live_ids ?s) \<noteq> (new_id \<in> dead_ids ?s)"
    by (auto simp: set_all_ids)
  moreover have "length (filter (\<lambda>j. job_id j = new_id) (jobs ?s @ dlq ?s)) = 1"
  proof -
    have d': "distinct (map job_id (jobs ?s @ dlq ?s))"
      using d by (simp only: all_ids_def)
    have m': "new_id \<in> job_id ` set (jobs ?s @ dlq ?s)"
      using m by (simp only: all_ids_def set_map)
    from count_one [OF d' m'] show ?thesis .
  qed
  ultimately show ?thesis by blast
qed

lemma run_history_dead:
  "run_ops history_dead (enqueue_job DEFAULT_CONFIG ''a'' ''false'' (Some 1) T0 empty_store)
   = \<lparr>jobs = [],
      dlq = [\<lparr>job_id = ''a'', command = ''false'', state = ''dead'', attempts = 1,
              max_retries = 1, run_at = ''2024-01-01 12:00:00'',
              created_at = ''2024-01-01 12:00:00'',
              updated_at = ''2024-01-01 12:00:01''\<rparr>],
      active_workers = []\<rparr>"
  by (simp add: history_dead_def empty_store_def enqueue_job_def get_next_job_for_worker_def
      eligible_def handle_failed_job_def pop_at_def py_str_T0 py_str_T0_1s isoformat_T0_1s
      enumerate_eq_zip Let_def)

lemma run_history_retried:
  "run_ops history_retried (enqueue_job DEFAULT_CONFIG ''a'' ''false'' (Some 1) T0 empty_store)
   = \<lparr>jobs = [\<lparr>job_id = ''a'', command = ''false'', state = ''pending'', attempts = 0,
               max_retries = 1, run_at = ''2024-01-01 12:00:01.600000'',
               created_at = ''2024-01-01 12:00:00'',
               updated_at = ''2024-01-01 12:00:01.600000''\<rparr>],
      dlq = [], active_workers = []\<rparr>"
  by (simp add: history_retried_def run_ops_append run_history_dead retry_dlq_job_def
      pop_at_def py_str_T0_1s6 Let_def)

theorem exactly_one_collection_witness:
  "fresh_ids ([] @ Enqueue DEFAULT_CONFIG ''a'' ''false'' (Some 1) T0 # history_dead) empty_store
   \<and> ''a'' \<notin> live_ids
        (run_ops ([] @ Enqueue DEFAULT_CONFIG ''a'' ''false'' (Some 1) T0 # history_dead)
           empty_store)
   \<and> ''a'' \<in> dead_ids
        (run_ops ([] @ Enqueue DEFAULT_CONFIG ''a'' ''false'' (Some 1) T0 # history_dead)
           empty_store)
   \<and> fresh_ids ([] @ Enqueue DEFAULT_CONFIG ''a'' ''false'' (Some 1) T0 # history_retried)
        empty_store
   \<and> ''a'' \<in> live_ids
        (run_ops ([] @ Enqueue DEFAULT_CONFIG ''a'' ''false'' (Some 1) T0 # history_retried)
           empty_store)
   \<and> ''a'' \<notin> dead_ids
        (run_ops ([] @ Enqueue DEFAULT_CONFIG ''a'' ''false'' (Some 1) T0 # history_retried)
           empty_store)"
proof -
  have f1: "fresh_ids ([] @ Enqueue DEFAULT_CONFIG ''a'' ''false'' (Some 1) T0 # history_dead)
              empty_store"
    by (simp add: history_dead_def empty_store_def live_ids_def dead_ids_def)
  have f2: "fresh_ids ([] @ Enqueue DEFAULT_CONFIG ''a'' ''false'' (Some 1) T0 # history_retried)
              empty_store"
    by (simp add: history_retried_def history_dead_def empty_store_def live_ids_def
        dead_ids_def)
  have "''a'' \<in> dead_ids
          (run_ops ([] @ Enqueue DEFAULT_CONFIG ''a'' ''false'' (Some 1) T0 # history_dead)
             empty_store)"
    by (simp add: run_history_dead dead_ids_def)
  moreover have "''a'' \<in> live_ids
          (run_ops ([] @ Enqueue DEFAULT_CONFIG ''a'' ''false'' (Some 1) T0 # history_retried)
             empty_store)"
    by (simp add: run_history_retried live_ids_def)
  ultimately show ?thesis
    using f1 f2 exactly_one_collection [OF f1] exactly_one_collection [OF f2] by blast
qed

end
